theory Spec2Isabelle
  imports Main "HOL-Library.Char_ord" "HOL-Library.List_Lexorder"
begin

section \<open>Strings\<close>

text \<open>
  A Python \<open>str\<close> is modelled as a \<open>string\<close>, one \<open>char\<close> per code point. The
  domains the program keeps are ASCII (they are the decoded output of the IDNA codec).
\<close>

text \<open>\<open>s.split(c)\<close> for a one-character separator: never empty, keeps empty fields.\<close>

fun split_on :: "char \<Rightarrow> string \<Rightarrow> string list" where
  "split_on c [] = [[]]"
| "split_on c (x # xs) =
     (if x = c then [] # split_on c xs
      else (x # hd (split_on c xs)) # tl (split_on c xs))"

text \<open>\<open>sep.join(parts)\<close>.\<close>

fun join :: "string \<Rightarrow> string list \<Rightarrow> string" where
  "join sep [] = []"
| "join sep [p] = p"
| "join sep (p # q # ps) = p @ sep @ join sep (q # ps)"

section \<open>remove_subdomains\<close>

text \<open>
  The inner loop of \<open>remove_subdomains\<close>:
  \<^verbatim>\<open>
  is_subdomain = False
  for i in range(1, len(parts)):
      higher_domain = ".".join(parts[i:])
      if higher_domain in subdomains:
          is_subdomain = True
          break
  \<close>
  The third argument is the part of the range still to visit.
\<close>

primrec higher_domain_loop :: "string list \<Rightarrow> string set \<Rightarrow> nat list \<Rightarrow> bool" where
  "higher_domain_loop parts subdomains [] = False"
| "higher_domain_loop parts subdomains (i # rest) =
     (if join ''.'' (drop i parts) \<in> subdomains then True
      else higher_domain_loop parts subdomains rest)"

definition is_subdomain :: "string set \<Rightarrow> string \<Rightarrow> bool" where
  "is_subdomain subdomains subdomain =
     (let parts = split_on CHR ''.'' subdomain
      in higher_domain_loop parts subdomains [1 ..< length parts])"

text \<open>
  Both outer loops visit every element of a set once, in an order Python leaves open, and
  only add to result sets, so each is the set it builds: the first loop splits \<open>domains\<close>
  into the one-label names (\<open>top_level_domains\<close>) and the others (\<open>subdomains\<close>), the
  second adds to \<open>top_level_domains\<close> every element of \<open>subdomains\<close> for which the inner
  loop finds no higher domain in \<open>subdomains\<close>.
\<close>

definition remove_subdomains :: "string set \<Rightarrow> string set" where
  "remove_subdomains domains =
     (let top_level_domains =
            Set.filter (\<lambda>domain. length (split_on CHR ''.'' domain) = 1) domains;
          subdomains =
            Set.filter (\<lambda>domain. length (split_on CHR ''.'' domain) \<noteq> 1) domains
      in top_level_domains \<union>
         Set.filter (\<lambda>subdomain. \<not> is_subdomain subdomains subdomain) subdomains)"

text \<open>
  \<open>a\<close> is a strict subdomain of \<open>b\<close>: \<open>b\<close> is a proper suffix of \<open>a\<close> that starts right
  after one of the dots of \<open>a\<close>.
\<close>

definition strict_subdomain_of :: "string \<Rightarrow> string \<Rightarrow> bool" where
  "strict_subdomain_of a b = (\<exists>p. a = p @ CHR ''.'' # b)"

text \<open>The same relation, computed the way the inner loop enumerates higher domains.\<close>

definition higher_domains :: "string \<Rightarrow> string list" where
  "higher_domains d =
     (let parts = split_on CHR ''.'' d
      in map (\<lambda>i. join ''.'' (drop i parts)) [1 ..< length parts])"

section \<open>chunk_list\<close>

datatype error = ValueError string | Exception string

text \<open>\<open>range(i, stop, step)\<close> for a positive step, as the list of its values.\<close>

function range_from :: "nat \<Rightarrow> nat \<Rightarrow> nat \<Rightarrow> nat list" where
  "range_from i stop step =
     (if 0 < step \<and> i < stop then i # range_from (i + step) stop step else [])"
  by pat_completeness auto
termination
  by (relation "measure (\<lambda>(i, stop, step). stop - i)") auto

declare range_from.simps [simp del]

text \<open>
  \<^verbatim>\<open>
  def chunk_list(self, _list, n):
      for i in range(0, len(_list), n):
          yield _list[i : i + n]
  \<close>
  The generator is modelled by the list of the slices it yields. \<open>range\<close> raises
  ValueError for a zero step and is empty for a negative one.
\<close>

definition chunk_list :: "'a list \<Rightarrow> int \<Rightarrow> error + 'a list list" where
  "chunk_list xs n =
     (if n = 0 then Inl (ValueError ''range() arg 3 must not be zero'')
      else if n < 0 then Inr []
      else Inr (map (\<lambda>i. take (nat n) (drop i xs)) (range_from 0 (length xs) (nat n))))"

section \<open>convert_domains\<close>

text \<open>\<open>s.startswith(p)\<close>.\<close>

definition startswith :: "string \<Rightarrow> string \<Rightarrow> bool" where
  "startswith s p = (take (length p) s = p)"

text \<open>
  \<open>s.lower()\<close> on the code points below 256: the ASCII capitals and the Latin-1 capitals
  (U+00C0 to U+00DE without the multiplication sign U+00D7) move up by 32.
\<close>

definition lower_char :: "char \<Rightarrow> char" where
  "lower_char c =
     (let n = (of_char c :: nat)
      in if (65 \<le> n \<and> n \<le> 90) \<or> (192 \<le> n \<and> n \<le> 222 \<and> n \<noteq> 215)
         then char_of (n + 32) else c)"

definition lower :: "string \<Rightarrow> string" where
  "lower s = map lower_char s"

text \<open>
  \<open>s.strip()\<close> removes leading and trailing whitespace; below 256 Python's whitespace is
  U+0009 to U+000D, U+001C to U+0020, U+0085 and U+00A0.
\<close>

definition isspace :: "char \<Rightarrow> bool" where
  "isspace c =
     (let n = (of_char c :: nat)
      in (9 \<le> n \<and> n \<le> 13) \<or> (28 \<le> n \<and> n \<le> 32) \<or> n = 133 \<or> n = 160)"

definition strip :: "string \<Rightarrow> string" where
  "strip s = rev (dropWhile isspace (rev (dropWhile isspace s)))"

text \<open>\<open>s.replace(c, "")\<close> for a one-character \<open>c\<close>.\<close>

definition remove_char :: "char \<Rightarrow> string \<Rightarrow> string" where
  "remove_char c s = filter (\<lambda>x. x \<noteq> c) s"

text \<open>
  \<open>utils.py\<close> imports \<open>replace_pattern\<close>, \<open>domain_pattern\<close> and \<open>ip_pattern\<close> from the
  package \<open>src\<close>, whose \<open>__init__\<close> is not among the sources, and calls Python's IDNA
  codec. They are parameters of the model:
  \<^item> \<open>replace_pattern_sub s\<close> is \<open>replace_pattern.sub("", s, count=1)\<close>;
  \<^item> \<open>idna_codec s\<close> is \<open>s.encode("idna").decode("utf-8", "replace")\<close>, \<open>None\<close> when the
    codec raises;
  \<^item> \<open>domain_pattern_match s\<close> and \<open>ip_pattern_match s\<close> say whether
    \<open>domain_pattern.match(s)\<close> and \<open>ip_pattern.match(s)\<close> find a match.
\<close>

record patterns =
  replace_pattern_sub :: "string \<Rightarrow> string"
  idna_codec :: "string \<Rightarrow> string option"
  domain_pattern_match :: "string \<Rightarrow> bool"
  ip_pattern_match :: "string \<Rightarrow> bool"

text \<open>
  \<^verbatim>\<open>
  def convert_domains(self, line):
      if line.startswith(("#", "!", "/")) or line == "":
          return None
      linex = line.lower().strip().split("#")[0].split("^")[0].replace("\r", "")
      domain = replace_pattern.sub("", linex, count=1)
      try:
          domain = domain.encode("idna").decode("utf-8", "replace")
          if domain_pattern.match(domain) and not ip_pattern.match(domain):
              return domain
      except Exception:
          pass
      return None
  \<close>
\<close>

definition convert_domains :: "patterns \<Rightarrow> string \<Rightarrow> string option" where
  "convert_domains e line =
     (if (startswith line ''#'' \<or> startswith line ''!'' \<or> startswith line ''/'') \<or> line = []
      then None
      else
        let linex = remove_char (CHR 0x0D)
                      (hd (split_on CHR ''^'' (hd (split_on CHR ''#'' (strip (lower line))))));
            domain = replace_pattern_sub e linex
        in case idna_codec e domain of
             None \<Rightarrow> None
           | Some domain \<Rightarrow>
               if domain_pattern_match e domain \<and> \<not> ip_pattern_match e domain
               then Some domain else None)"

section \<open>convert_to_domain_list\<close>

text \<open>
  \<open>s.splitlines()\<close>: below 256 the line boundaries are U+000A to U+000D, U+001C to U+001E
  and U+0085, CR LF counts as one, and a boundary at the very end opens no further line.
\<close>

definition is_linebreak :: "char \<Rightarrow> bool" where
  "is_linebreak c =
     (let n = (of_char c :: nat)
      in (10 \<le> n \<and> n \<le> 13) \<or> (28 \<le> n \<and> n \<le> 30) \<or> n = 133)"

fun splitlines :: "string \<Rightarrow> string list" where
  "splitlines [] = []"
| "splitlines [c] = (if is_linebreak c then [[]] else [[c]])"
| "splitlines (c # d # cs) =
     (if c = CHR 0x0D \<and> d = CHR 0x0A then [] # splitlines cs
      else if is_linebreak c then [] # splitlines (d # cs)
      else (case splitlines (d # cs) of
              [] \<Rightarrow> [[c]]
            | l # ls \<Rightarrow> (c # l) # ls))"

text \<open>
  The body of the two loops over the lines,
  \<^verbatim>\<open>
  domain = self.convert_domains(line)
  if domain:
      domains.add(domain)
  \<close>
  where \<open>None\<close> and the empty string are both false.
\<close>

definition add_domain :: "patterns \<Rightarrow> string \<Rightarrow> string set \<Rightarrow> string set" where
  "add_domain e line domains =
     (case convert_domains e line of
        None \<Rightarrow> domains
      | Some domain \<Rightarrow> if domain = [] then domains else insert domain domains)"

definition collect_domains :: "patterns \<Rightarrow> string \<Rightarrow> string set" where
  "collect_domains e content = fold (add_domain e) (splitlines content) {}"

text \<open>
  \<^verbatim>\<open>
  filtered_domains = self.remove_subdomains(block_domains)
  final_domains = sorted(list(filtered_domains - white_domains))
  \<close>
  \<open>sorted\<close> of the elements of a set, listed in any order, is the sorted list of the set.
  The order on \<open>string\<close> is the one of \<open>List_Lexorder\<close> over \<open>Char_ord\<close>; \<open>str_less\<close>
  below is Python's comparison of \<open>str\<close>, and the two are shown to agree.
\<close>

definition convert_to_domain_list :: "patterns \<Rightarrow> string \<Rightarrow> string \<Rightarrow> string list" where
  "convert_to_domain_list e block_content white_content =
     (let white_domains = collect_domains e white_content;
          block_domains = collect_domains e block_content;
          filtered_domains = remove_subdomains block_domains;
          final_domains = sorted_list_of_set (filtered_domains - white_domains)
      in final_domains)"

text \<open>
  Python's \<open><\<close> on \<open>str\<close>: code point by code point, a proper prefix being smaller.
\<close>

fun str_less :: "string \<Rightarrow> string \<Rightarrow> bool" where
  "str_less [] [] = False"
| "str_less [] (y # ys) = True"
| "str_less (x # xs) [] = False"
| "str_less (x # xs) (y # ys) =
     ((of_char x :: nat) < of_char y \<or> (x = y \<and> str_less xs ys))"

section \<open>A concrete instance of the absent patterns\<close>

text \<open>
  Modelled from the spec: the domain grammar of the data model (the pattern
  \<open>domain_pattern\<close> of the package \<open>src\<close> is missing): labels separated by \<open>.\<close>, each label
  alphanumeric/hyphen, with no leading or trailing hyphen.
\<close>

definition isalnum :: "char \<Rightarrow> bool" where
  "isalnum c =
     (let n = (of_char c :: nat)
      in (48 \<le> n \<and> n \<le> 57) \<or> (65 \<le> n \<and> n \<le> 90) \<or> (97 \<le> n \<and> n \<le> 122))"

definition label_ok :: "string \<Rightarrow> bool" where
  "label_ok l =
     (l \<noteq> [] \<and> list_all (\<lambda>c. isalnum c \<or> c = CHR ''-'') l \<and>
      hd l \<noteq> CHR ''-'' \<and> last l \<noteq> CHR ''-'')"

definition domain_grammar :: "string \<Rightarrow> bool" where
  "domain_grammar d = list_all label_ok (split_on CHR ''.'' d)"

text \<open>The characters a string of that grammar is made of.\<close>

definition domain_char :: "char \<Rightarrow> bool" where
  "domain_char c = (isalnum c \<or> c = CHR ''-'' \<or> c = CHR ''.'')"

text \<open>
  Modelled from the spec: an IPv4 literal, four groups of one to three digits (the pattern
  \<open>ip_pattern\<close> of the package \<open>src\<close> is missing; an IPv6 literal has a colon and is
  outside the domain grammar already).
\<close>

definition isdigit :: "char \<Rightarrow> bool" where
  "isdigit c = (let n = (of_char c :: nat) in 48 \<le> n \<and> n \<le> 57)"

definition ipv4_literal :: "string \<Rightarrow> bool" where
  "ipv4_literal s =
     (let parts = split_on CHR ''.'' s
      in length parts = 4 \<and>
         list_all (\<lambda>p. 1 \<le> length p \<and> length p \<le> 3 \<and> list_all isdigit p) parts)"

text \<open>
  Modelled from the spec: the decorations that the Normalizer strips once, by the two
  examples the spec names, the hosts-file prefix \<open>0.0.0.0 \<close> and the adblock prefix
  \<open>||\<close> (the pattern \<open>replace_pattern\<close> of the package \<open>src\<close> is missing).
\<close>

definition strip_decoration :: "string \<Rightarrow> string" where
  "strip_decoration s =
     (if startswith s ''||'' then drop 2 s
      else if startswith s ''0.0.0.0 '' then drop 8 s
      else s)"

text \<open>
  The IDNA codec on ASCII text returns the text; this instance rejects everything else.
\<close>

definition ascii_only :: "string \<Rightarrow> string option" where
  "ascii_only s = (if list_all (\<lambda>c. (of_char c :: nat) < 128) s then Some s else None)"

definition spec_patterns :: patterns where
  "spec_patterns =
     \<lparr> replace_pattern_sub = strip_decoration,
       idna_codec = ascii_only,
       domain_pattern_match = domain_grammar,
       ip_pattern_match = ipv4_literal \<rparr>"

section \<open>The remote store\<close>

text \<open>
  The records the remote store returns: of a list the program reads \<open>l["id"]\<close>,
  \<open>l["name"]\<close> and \<open>l["count"]\<close>, of a policy \<open>p["id"]\<close>.
\<close>

record cf_list =
  list_id :: string
  list_name :: string
  list_count :: int

record cf_policy =
  policy_id :: string
  policy_name :: string
  policy_lists :: "string list"

text \<open>
  \<open>utils.py\<close> imports the module \<open>cloudflare\<close> from the package \<open>src\<close>; it is not among
  the sources. Its seven functions are parameters of the model: each takes the state
  \<open>'s\<close> of the remote store and returns its answer, or the error it raises, and the new
  state.
\<close>

record 's cloudflare =
  get_lists :: "string \<Rightarrow> 's \<Rightarrow> (error + cf_list list) \<times> 's"
  get_firewall_policies :: "string \<Rightarrow> 's \<Rightarrow> (error + cf_policy list) \<times> 's"
  create_gateway_policy :: "string \<Rightarrow> string list \<Rightarrow> 's \<Rightarrow> (error + cf_policy) \<times> 's"
  update_gateway_policy :: "string \<Rightarrow> string \<Rightarrow> string list \<Rightarrow> 's \<Rightarrow> (error + unit) \<times> 's"
  delete_gateway_policy :: "string \<Rightarrow> 's \<Rightarrow> (error + int) \<times> 's"
  delete_list :: "string \<Rightarrow> string \<Rightarrow> 's \<Rightarrow> (error + unit) \<times> 's"
  create_list :: "string \<Rightarrow> string list \<Rightarrow> 's \<Rightarrow> (error + cf_list) \<times> 's"

text \<open>The calls a run issues to the remote store, with their arguments.\<close>

datatype call =
    Get_lists string
  | Get_firewall_policies string
  | Create_gateway_policy string "string list"
  | Update_gateway_policy string string "string list"
  | Delete_gateway_policy string
  | Delete_list string string
  | Create_list string "string list"

text \<open>The calls that change the remote store: all but the two reads.\<close>

fun is_mutation :: "call \<Rightarrow> bool" where
  "is_mutation (Get_lists _) = False"
| "is_mutation (Get_firewall_policies _) = False"
| "is_mutation _ = True"

text \<open>
  A coroutine of the program is a function of the world, the state of the remote store
  and the calls issued so far, to a result or the exception raised and the new world.
\<close>

type_synonym ('s, 'a) io = "'s \<times> call list \<Rightarrow> (error + 'a) \<times> ('s \<times> call list)"

definition return :: "'a \<Rightarrow> ('s, 'a) io" where
  "return x = (\<lambda>w. (Inr x, w))"

definition raise :: "error \<Rightarrow> ('s, 'a) io" where
  "raise err = (\<lambda>w. (Inl err, w))"

definition lift :: "error + 'a \<Rightarrow> ('s, 'a) io" where
  "lift r = (\<lambda>w. (r, w))"

definition bind :: "('s, 'a) io \<Rightarrow> ('a \<Rightarrow> ('s, 'b) io) \<Rightarrow> ('s, 'b) io" where
  "bind m f = (\<lambda>w. case m w of (Inl err, w') \<Rightarrow> (Inl err, w') | (Inr x, w') \<Rightarrow> f x w')"

text \<open>A call to the remote store: the call is recorded and the store answers.\<close>

definition remote :: "call \<Rightarrow> ('s \<Rightarrow> (error + 'a) \<times> 's) \<Rightarrow> ('s, 'a) io" where
  "remote c op = (\<lambda>w. (fst (op (fst w)), (snd (op (fst w)), snd w @ [c])))"

text \<open>
  \<open>await asyncio.gather(*tasks)\<close>: the tasks run in the order of the list, and the results
  come in that order. A failing task ends the model's gather with its exception; what the
  remaining tasks still do in Python is outside the model, and no theorem below is about
  a run in which a gathered task fails.
\<close>

primrec gather :: "('s, 'a) io list \<Rightarrow> ('s, 'a list) io" where
  "gather [] = return []"
| "gather (t # ts) = bind t (\<lambda>x. bind (gather ts) (\<lambda>xs. return (x # xs)))"

section \<open>run\<close>

text \<open>\<open>str(n)\<close> for a natural number, in decimal.\<close>

function str_nat :: "nat \<Rightarrow> string" where
  "str_nat n =
     (if n < 10 then [''0123456789'' ! n]
      else str_nat (n div 10) @ [''0123456789'' ! (n mod 10)])"
  by pat_completeness auto
termination
  by (relation "measure id") auto

declare str_nat.simps [simp del]

text \<open>
  The object: \<open>name_prefix\<close> is set by \<open>__init__\<close> to \<open>f"[AdBlock-{adlist_name}]"\<close>.
\<close>

record app =
  adlist_name :: string
  adlist_urls :: "string list"
  whitelist_urls :: "string list"

definition name_prefix :: "app \<Rightarrow> string" where
  "name_prefix self = ''[AdBlock-'' @ adlist_name self @ '']''"

text \<open>
  \<open>download_file\<close> asks the network for the text behind a URL; the network is the
  parameter \<open>web\<close>, which answers with the text or with the error raised.
\<close>

definition download_file :: "(string \<Rightarrow> error + string) \<Rightarrow> string \<Rightarrow> ('s, string) io" where
  "download_file web url = lift (web url)"

text \<open>
  \<^verbatim>\<open>
  block_content = "".join(results[:len(self.adlist_urls)])
  white_content = "".join(results[len(self.adlist_urls):])
  domains = self.convert_to_domain_list(block_content, white_content)
  \<close>
\<close>

definition computed_domains :: "patterns \<Rightarrow> app \<Rightarrow> string list \<Rightarrow> string list" where
  "computed_domains e self results =
     (let block_content = concat (take (length (adlist_urls self)) results);
          white_content = concat (drop (length (adlist_urls self)) results)
      in convert_to_domain_list e block_content white_content)"

text \<open>
  \<^verbatim>\<open>
  delete_list_tasks = []
  for l in cf_lists:
      delete_list_tasks.append(cloudflare.delete_list(l["name"], l["id"]))
  await asyncio.gather(*delete_list_tasks)
  \<close>
\<close>

definition delete_lists :: "'s cloudflare \<Rightarrow> cf_list list \<Rightarrow> ('s, unit list) io" where
  "delete_lists cf cf_lists =
     gather (map (\<lambda>l. remote (Delete_list (list_name l) (list_id l))
                         (delete_list cf (list_name l) (list_id l))) cf_lists)"

text \<open>
  \<^verbatim>\<open>
  create_list_tasks = []
  for i, chunk in enumerate(self.chunk_list(domains, 1000)):
      list_name = f"{self.name_prefix} {i + 1}"
      create_list_tasks.append(cloudflare.create_list(list_name, chunk))
  cf_lists = await asyncio.gather(*create_list_tasks)
  \<close>
\<close>

definition create_lists :: "'s cloudflare \<Rightarrow> app \<Rightarrow> string list \<Rightarrow> ('s, cf_list list) io" where
  "create_lists cf self domains =
     bind (lift (chunk_list domains 1000)) (\<lambda>chunks.
       gather (map (\<lambda>(i, chunk).
                      remote (Create_list (name_prefix self @ '' '' @ str_nat (i + 1)) chunk)
                        (create_list cf (name_prefix self @ '' '' @ str_nat (i + 1)) chunk))
                 (enumerate 0 chunks)))"

text \<open>
  \<open>run\<close>, statement by statement; logging is not modelled. The final \<open>if\<close> of the source
  sets up the gateway policy: it creates one when none is found, raises when more than
  one is found, and updates the only one otherwise.
\<close>

definition run ::
  "patterns \<Rightarrow> (string \<Rightarrow> error + string) \<Rightarrow> 's cloudflare \<Rightarrow> app \<Rightarrow> ('s, unit) io" where
  "run e web cf self =
     bind (gather (map (download_file web) (adlist_urls self @ whitelist_urls self)))
       (\<lambda>results.
     let domains = computed_domains e self results in
     if length domains = 0 then return ()
     else if length domains > 300000 then return ()
     else
     bind (remote (Get_lists (name_prefix self)) (get_lists cf (name_prefix self)))
       (\<lambda>cf_lists.
     if int (length domains) = sum_list (map list_count cf_lists) then
       bind (remote (Get_firewall_policies (name_prefix self))
               (get_firewall_policies cf (name_prefix self)))
         (\<lambda>cf_policies.
       if length cf_policies = 0 then
         bind (remote (Create_gateway_policy (name_prefix self @ '' Block Ads'')
                         (map list_id cf_lists))
                 (create_gateway_policy cf (name_prefix self @ '' Block Ads'')
                    (map list_id cf_lists)))
           (\<lambda>cf_policies. return ())
       else return ())
     else
       let policy_prefix = name_prefix self @ '' Block Ads'' in
       bind (remote (Delete_gateway_policy policy_prefix)
               (delete_gateway_policy cf policy_prefix))
         (\<lambda>deleted_policies.
       bind (delete_lists cf cf_lists)
         (\<lambda>_.
       bind (create_lists cf self domains)
         (\<lambda>cf_lists.
       bind (remote (Get_firewall_policies (name_prefix self))
               (get_firewall_policies cf (name_prefix self)))
         (\<lambda>cf_policies.
       if length cf_policies = 0 then
         bind (remote (Create_gateway_policy policy_prefix (map list_id cf_lists))
                 (create_gateway_policy cf policy_prefix (map list_id cf_lists)))
           (\<lambda>cf_policies. return ())
       else if length cf_policies \<noteq> 1 then
         raise (Exception ''More than one firewall policy found'')
       else
         remote (Update_gateway_policy (name_prefix self @ '' Block Ads'')
                   (policy_id (cf_policies ! 0)) (map list_id cf_lists))
           (update_gateway_policy cf (name_prefix self @ '' Block Ads'')
              (policy_id (cf_policies ! 0)) (map list_id cf_lists))))))))"

section \<open>A concrete remote store\<close>

text \<open>
  Modelled from the spec: the remote list and policy store behind the module
  \<open>cloudflare\<close>, which is missing, by the logical operations of the spec's external
  interfaces: reads return the records whose name starts with the prefix, a creation
  appends a record with a fresh identifier, a deletion removes the records it names, and
  no operation fails.
\<close>

record store =
  lists :: "cf_list list"
  policies :: "cf_policy list"
  next_id :: nat

definition spec_cloudflare :: "store cloudflare" where
  "spec_cloudflare =
     \<lparr> get_lists = (\<lambda>prefix s.
         (Inr (filter (\<lambda>l. startswith (list_name l) prefix) (lists s)), s)),
       get_firewall_policies = (\<lambda>prefix s.
         (Inr (filter (\<lambda>p. startswith (policy_name p) prefix) (policies s)), s)),
       create_gateway_policy = (\<lambda>name ids s.
         (Inr \<lparr> policy_id = ''p'' @ str_nat (next_id s), policy_name = name, policy_lists = ids \<rparr>,
          s \<lparr> policies := policies s @
                 [\<lparr> policy_id = ''p'' @ str_nat (next_id s), policy_name = name,
                    policy_lists = ids \<rparr>],
              next_id := next_id s + 1 \<rparr>)),
       update_gateway_policy = (\<lambda>name pid ids s.
         (Inr (),
          s \<lparr> policies :=
                 map (\<lambda>p. if policy_id p = pid
                            then p \<lparr> policy_name := name, policy_lists := ids \<rparr> else p)
                   (policies s) \<rparr>)),
       delete_gateway_policy = (\<lambda>prefix s.
         (Inr (int (length (filter (\<lambda>p. startswith (policy_name p) prefix) (policies s)))),
          s \<lparr> policies := filter (\<lambda>p. \<not> startswith (policy_name p) prefix) (policies s) \<rparr>)),
       delete_list = (\<lambda>name lid s.
         (Inr (), s \<lparr> lists := filter (\<lambda>l. list_id l \<noteq> lid) (lists s) \<rparr>)),
       create_list = (\<lambda>name domains s.
         (Inr \<lparr> list_id = ''l'' @ str_nat (next_id s), list_name = name,
                list_count = int (length domains) \<rparr>,
          s \<lparr> lists := lists s @
                 [\<lparr> list_id = ''l'' @ str_nat (next_id s), list_name = name,
                    list_count = int (length domains) \<rparr>],
              next_id := next_id s + 1 \<rparr>)) \<rparr>"

section \<open>Concrete inputs\<close>

text \<open>
  A network with a one-domain block list behind the URL \<open>u\<close> and a block list holding
  only a comment behind \<open>c\<close>, an application named \<open>x\<close>, and states of the remote store:
  two policies in the namespace of \<open>x\<close>, with one list whose count is the size of the
  final list (1) or another one (5), the first of these without its policies, and the
  empty store.
\<close>

definition example_web :: "string \<Rightarrow> error + string" where
  "example_web url =
     (if url = ''u'' then Inr ''a.io''
      else if url = ''c'' then Inr ''#a.io''
      else Inl (Exception ''not found''))"

definition example_app :: app where
  "example_app = \<lparr> adlist_name = ''x'', adlist_urls = [''u''], whitelist_urls = [] \<rparr>"

definition comment_app :: app where
  "comment_app = \<lparr> adlist_name = ''x'', adlist_urls = [''c''], whitelist_urls = [] \<rparr>"

definition two_policies :: "cf_policy list" where
  "two_policies =
     [\<lparr> policy_id = ''p1'', policy_name = ''[AdBlock-x] A'', policy_lists = [] \<rparr>,
      \<lparr> policy_id = ''p2'', policy_name = ''[AdBlock-x] B'', policy_lists = [] \<rparr>]"

definition store_same_size :: store where
  "store_same_size =
     \<lparr> lists = [\<lparr> list_id = ''l1'', list_name = ''[AdBlock-x] 1'', list_count = 1 \<rparr>],
       policies = two_policies, next_id = 3 \<rparr>"

definition store_other_size :: store where
  "store_other_size =
     \<lparr> lists = [\<lparr> list_id = ''l1'', list_name = ''[AdBlock-x] 1'', list_count = 5 \<rparr>],
       policies = two_policies, next_id = 3 \<rparr>"

definition empty_store :: store where
  "empty_store = \<lparr> lists = [], policies = [], next_id = 0 \<rparr>"

definition store_no_policy :: store where
  "store_no_policy =
     \<lparr> lists = [\<lparr> list_id = ''l1'', list_name = ''[AdBlock-x] 1'', list_count = 1 \<rparr>],
       policies = [], next_id = 3 \<rparr>"

text \<open>The store after the lists of \<open>store_other_size\<close> have been rebuilt.\<close>

definition store_rebuilt :: store where
  "store_rebuilt =
     \<lparr> lists = [\<lparr> list_id = ''l3'', list_name = ''[AdBlock-x] 1'', list_count = 1 \<rparr>],
       policies = two_policies, next_id = 4 \<rparr>"

section \<open>Properties of split and join\<close>

lemma split_on_not_Nil [simp]: "split_on c s \<noteq> []"
  by (cases s) auto

lemma length_split_on_pos [simp]: "0 < length (split_on c s)"
  by (cases s) auto

lemma join_split_on [simp]: "join [c] (split_on c s) = s"
proof (induction s)
  case Nil
  then show ?case by simp
next
  case (Cons x xs)
  obtain p ps where ps: "split_on c xs = p # ps"
    by (cases "split_on c xs") auto
  with Cons show ?case
    by (cases ps) auto
qed

lemma split_on_append: "split_on c (p @ c # t) = split_on c p @ split_on c t"
proof (induction p)
  case Nil
  then show ?case by simp
next
  case (Cons x xs)
  then show ?case
    by (cases "split_on c xs") auto
qed

lemma join_append:
  "xs \<noteq> [] \<Longrightarrow> ys \<noteq> [] \<Longrightarrow> join sep (xs @ ys) = join sep xs @ sep @ join sep ys"
proof (induction sep xs rule: join.induct)
  case (1 sep)
  then show ?case by simp
next
  case (2 sep p)
  then show ?case by (cases ys) auto
next
  case (3 sep p q ps)
  then show ?case by simp
qed

lemma length_split_on_one: "length (split_on c s) = Suc 0 \<longleftrightarrow> c \<notin> set s"
proof (induction s)
  case Nil
  then show ?case by simp
next
  case (Cons x xs)
  then show ?case
    by (cases "split_on c xs") auto
qed

lemma higher_domains_iff: "b \<in> set (higher_domains a) \<longleftrightarrow> strict_subdomain_of a b"
proof
  assume "b \<in> set (higher_domains a)"
  then obtain i where i: "1 \<le> i" "i < length (split_on CHR ''.'' a)"
    and b: "b = join ''.'' (drop i (split_on CHR ''.'' a))"
    by (auto simp: higher_domains_def Let_def)
  let ?ps = "split_on CHR ''.'' a"
  have "a = join ''.'' (take i ?ps @ drop i ?ps)"
    by simp
  also have "\<dots> = join ''.'' (take i ?ps) @ ''.'' @ join ''.'' (drop i ?ps)"
    using i by (intro join_append) auto
  finally show "strict_subdomain_of a b"
    unfolding strict_subdomain_of_def b by auto
next
  assume "strict_subdomain_of a b"
  then obtain p where a: "a = p @ CHR ''.'' # b"
    by (auto simp: strict_subdomain_of_def)
  let ?i = "length (split_on CHR ''.'' p)"
  have sp: "split_on CHR ''.'' a = split_on CHR ''.'' p @ split_on CHR ''.'' b"
    by (simp add: a split_on_append)
  have "join ''.'' (drop ?i (split_on CHR ''.'' a)) = b"
    by (simp add: sp)
  moreover have "1 \<le> ?i" "?i < length (split_on CHR ''.'' a)"
    by (simp_all add: sp Suc_leI)
  ultimately show "b \<in> set (higher_domains a)"
    unfolding higher_domains_def Let_def by (auto simp: image_iff intro!: bexI[of _ ?i])
qed

lemma higher_domain_loop_iff:
  "higher_domain_loop parts subdomains is \<longleftrightarrow>
     (\<exists>i \<in> set is. join ''.'' (drop i parts) \<in> subdomains)"
  by (induction "is") auto

lemma is_subdomain_iff:
  "is_subdomain subdomains d \<longleftrightarrow> (\<exists>b \<in> subdomains. strict_subdomain_of d b)"
proof -
  have "is_subdomain subdomains d \<longleftrightarrow> (\<exists>b \<in> set (higher_domains d). b \<in> subdomains)"
    by (auto simp: is_subdomain_def higher_domains_def Let_def higher_domain_loop_iff)
  then show ?thesis
    by (auto simp: higher_domains_iff)
qed

lemma strict_subdomain_of_trans:
  "strict_subdomain_of a b \<Longrightarrow> strict_subdomain_of b c \<Longrightarrow> strict_subdomain_of a c"
  unfolding strict_subdomain_of_def
  by (metis append.assoc append_Cons)

lemma strict_subdomain_of_length:
  "strict_subdomain_of a b \<Longrightarrow> length b < length a"
  by (auto simp: strict_subdomain_of_def)

lemma strict_subdomain_of_dot:
  "strict_subdomain_of a b \<Longrightarrow> CHR ''.'' \<in> set a"
  by (auto simp: strict_subdomain_of_def)

lemma remove_subdomains_iff:
  "d \<in> remove_subdomains domains \<longleftrightarrow>
     d \<in> domains \<and>
     (CHR ''.'' \<in> set d \<longrightarrow>
        \<not> (\<exists>b \<in> domains. CHR ''.'' \<in> set b \<and> strict_subdomain_of d b))"
  by (auto simp: remove_subdomains_def Let_def is_subdomain_iff length_split_on_one)

section \<open>Properties of range and slices\<close>

lemma concat_chunks:
  "0 < n \<Longrightarrow>
   concat (map (\<lambda>i. take n (drop i xs)) (range_from i (length xs) n)) = drop i xs"
proof (induction i "length xs" n rule: range_from.induct)
  case (1 i step)
  show ?case
  proof (cases "i < length xs")
    case True
    have "take step (drop i xs) @ drop (i + step) xs = drop i xs"
      by (metis add.commute append_take_drop_id drop_drop)
    with 1 True show ?thesis
      by (simp add: range_from.simps [of i])
  next
    case False
    then show ?thesis
      by (simp add: range_from.simps [of i])
  qed
qed

lemma range_from_nth:
  "k < length (range_from i stop n) \<Longrightarrow> range_from i stop n ! k = i + k * n"
proof (induction i stop n arbitrary: k rule: range_from.induct)
  case (1 i stop step)
  then show ?case
    by (cases k) (auto simp: range_from.simps [of i] split: if_splits)
qed

lemma range_from_less:
  "j \<in> set (range_from i stop n) \<Longrightarrow> j < stop"
proof (induction i stop n rule: range_from.induct)
  case (1 i stop step)
  then show ?case
    by (auto simp: range_from.simps [of i] split: if_splits)
qed

section \<open>Properties of the normalizer's string operations\<close>

lemma split_on_absent: "c \<notin> set s \<Longrightarrow> split_on c s = [s]"
  by (induction s) auto

lemma set_split_on: "set s \<subseteq> insert c (\<Union>(set ` set (split_on c s)))"
proof (induction s)
  case Nil
  then show ?case by simp
next
  case (Cons x xs)
  then show ?case
    by (cases "split_on c xs") auto
qed

lemma strip_no_space: "\<forall>c \<in> set s. \<not> isspace c \<Longrightarrow> strip s = s"
proof -
  assume a: "\<forall>c \<in> set s. \<not> isspace c"
  have "dropWhile isspace s = s"
    using a by (cases s) auto
  moreover have "dropWhile isspace (rev s) = rev s"
    using a by (cases "rev s") (auto dest: arg_cong [where f = set])
  ultimately show ?thesis
    by (simp add: strip_def)
qed

lemma remove_char_absent: "c \<notin> set s \<Longrightarrow> remove_char c s = s"
  by (induction s) (auto simp: remove_char_def)

lemma domain_grammar_chars: "domain_grammar d \<Longrightarrow> c \<in> set d \<Longrightarrow> domain_char c"
proof -
  assume g: "domain_grammar d" and c: "c \<in> set d"
  from c set_split_on [of d "CHR ''.''"]
  consider "c = CHR ''.''" | l where "l \<in> set (split_on CHR ''.'' d)" "c \<in> set l"
    by auto
  then show ?thesis
  proof cases
    case 1
    then show ?thesis by (simp add: domain_char_def)
  next
    case 2
    with g have "label_ok l"
      by (simp add: domain_grammar_def list_all_iff)
    with 2 show ?thesis
      by (auto simp: label_ok_def list_all_iff domain_char_def)
  qed
qed

lemma domain_grammar_not_Nil: "domain_grammar d \<Longrightarrow> d \<noteq> []"
  by (auto simp: domain_grammar_def label_ok_def)

lemma domain_char_plain:
  assumes "domain_char c"
  shows "\<not> isspace c" "c \<noteq> CHR ''#''" "c \<noteq> CHR ''!''" "c \<noteq> CHR ''/''"
    "c \<noteq> CHR ''^''" "c \<noteq> CHR 0x0D"
  using assms by (auto simp: domain_char_def isalnum_def isspace_def Let_def)

lemma str_less_iff: "str_less a b \<longleftrightarrow> a < b"
  by (induction a b rule: str_less.induct) (auto simp: less_char_def)

lemma finite_fold_add_domain: "finite A \<Longrightarrow> finite (fold (add_domain e) ls A)"
  by (induction ls arbitrary: A) (auto simp: add_domain_def split: option.splits)

lemma finite_collect_domains: "finite (collect_domains e content)"
  by (simp add: collect_domains_def finite_fold_add_domain)

lemma remove_subdomains_subset: "remove_subdomains domains \<subseteq> domains"
  by (auto simp: remove_subdomains_iff)

lemma finite_reduced_minus_allow:
  "finite (remove_subdomains (collect_domains e b) - collect_domains e w)"
  by (meson finite_Diff finite_collect_domains finite_subset remove_subdomains_subset)

section \<open>Properties of the coroutines\<close>

lemma bind_Inr: "m w = (Inr x, w') \<Longrightarrow> bind m f w = f x w'"
  by (simp add: bind_def)

lemma bind_Inl: "m w = (Inl err, w') \<Longrightarrow> bind m f w = (Inl err, w')"
  by (simp add: bind_def)

lemma remote_apply: "remote c op w = (fst (op (fst w)), (snd (op (fst w)), snd w @ [c]))"
  by (simp add: remote_def)

lemma gather_download:
  "map web urls = map Inr results \<Longrightarrow>
   gather (map (download_file web) urls) w = (Inr results, w)"
proof (induction urls arbitrary: results)
  case Nil
  then show ?case by (simp add: return_def)
next
  case (Cons u us)
  then obtain r rs where rs: "results = r # rs" "web u = Inr r" "map web us = map Inr rs"
    by (cases results) auto
  with Cons.IH [of rs] show ?case
    by (simp add: bind_def download_file_def lift_def return_def)
qed

lemma gather_remote_log:
  "gather (map (\<lambda>x. remote (c x) (f x)) xs) w = (Inr rs, w') \<Longrightarrow>
   snd w' = snd w @ map c xs"
proof (induction xs arbitrary: w rs)
  case Nil
  then show ?case by (simp add: return_def)
next
  case (Cons x xs)
  obtain r v where rv: "remote (c x) (f x) w = (r, v)"
    by (cases "remote (c x) (f x) w") auto
  then have v: "snd v = snd w @ [c x]"
    by (auto simp: remote_def)
  show ?case
  proof (cases r)
    case (Inl err)
    with rv Cons.prems show ?thesis
      by (simp add: bind_def)
  next
    case (Inr y)
    obtain q v' where q: "gather (map (\<lambda>x. remote (c x) (f x)) xs) v = (q, v')"
      by (cases "gather (map (\<lambda>x. remote (c x) (f x)) xs) v") auto
    with rv Inr Cons.prems obtain ys where ys: "q = Inr ys" "w' = v'"
      by (cases q) (auto simp: bind_def return_def)
    with q Cons.IH [of v ys] v show ?thesis
      by simp
  qed
qed

lemma delete_lists_log:
  "delete_lists cf cf_lists w = (Inr rs, w') \<Longrightarrow>
   snd w' = snd w @ map (\<lambda>l. Delete_list (list_name l) (list_id l)) cf_lists"
  unfolding delete_lists_def by (rule gather_remote_log)

lemma create_lists_log:
  assumes "create_lists cf self domains w = (Inr rs, w')"
  shows "\<exists>chunks. chunk_list domains 1000 = Inr chunks \<and>
           snd w' = snd w @
             map (\<lambda>(i, chunk). Create_list (name_prefix self @ '' '' @ str_nat (i + 1)) chunk)
               (enumerate 0 chunks)"
proof -
  obtain chunks where ch: "chunk_list domains 1000 = Inr chunks"
    by (auto simp: chunk_list_def)
  let ?c = "\<lambda>x. Create_list (name_prefix self @ '' '' @ str_nat (fst x + 1)) (snd x)"
  let ?f = "\<lambda>x. create_list cf (name_prefix self @ '' '' @ str_nat (fst x + 1)) (snd x)"
  have "(\<lambda>(i, chunk).
           remote (Create_list (name_prefix self @ '' '' @ str_nat (i + 1)) chunk)
             (create_list cf (name_prefix self @ '' '' @ str_nat (i + 1)) chunk)) =
        (\<lambda>x. remote (?c x) (?f x))"
    by (rule ext) (simp add: case_prod_unfold)
  with assms ch
  have "gather (map (\<lambda>x. remote (?c x) (?f x)) (enumerate 0 chunks)) w = (Inr rs, w')"
    by (simp add: create_lists_def bind_def lift_def)
  then have "snd w' = snd w @ map ?c (enumerate 0 chunks)"
    by (rule gather_remote_log)
  with ch show ?thesis
    by (simp add: case_prod_unfold)
qed

section \<open>The concrete inputs evaluated\<close>

lemma computed_domains_comment:
  "computed_domains spec_patterns comment_app [''#a.io''] = []"
proof -
  have "convert_domains spec_patterns ''#a.io'' = None"
    by (simp add: convert_domains_def startswith_def)
  then have "collect_domains spec_patterns ''#a.io'' = {}"
    by (simp add: collect_domains_def is_linebreak_def add_domain_def)
  moreover have "collect_domains spec_patterns [] = {}"
    by (simp add: collect_domains_def)
  moreover have "remove_subdomains {} = {}"
    by (simp add: remove_subdomains_def)
  ultimately show ?thesis
    by (simp add: computed_domains_def comment_app_def convert_to_domain_list_def)
qed

lemma computed_domains_example:
  "computed_domains spec_patterns example_app [''a.io''] = [''a.io'']"
proof -
  have "convert_domains spec_patterns ''a.io'' = Some ''a.io''"
    by (simp add: convert_domains_def startswith_def lower_def lower_char_def strip_def
        isspace_def remove_char_def spec_patterns_def strip_decoration_def ascii_only_def
        domain_grammar_def label_ok_def isalnum_def ipv4_literal_def isdigit_def)
  then have b: "collect_domains spec_patterns ''a.io'' = {''a.io''}"
    by (simp add: collect_domains_def is_linebreak_def add_domain_def)
  have w: "collect_domains spec_patterns [] = {}"
    by (simp add: collect_domains_def)
  have "''a.io'' \<in> remove_subdomains {''a.io''}"
    by (simp add: remove_subdomains_def is_subdomain_def upt_rec)
  moreover have "remove_subdomains {''a.io''} \<subseteq> {''a.io''}"
    by (rule remove_subdomains_subset)
  ultimately have r: "remove_subdomains {''a.io''} = {''a.io''}"
    by blast
  show ?thesis
    by (simp add: computed_domains_def example_app_def convert_to_domain_list_def b w r)
qed

lemma example_downloads:
  "map example_web (adlist_urls example_app @ whitelist_urls example_app) = map Inr [''a.io'']"
  by (simp add: example_web_def example_app_def)

lemma example_name_prefix: "name_prefix example_app = ''[AdBlock-x]''"
  by (simp add: name_prefix_def example_app_def)

section \<open>The paths of run past the size guards\<close>

lemma run_past_guards:
  assumes "map web (adlist_urls self @ whitelist_urls self) = map Inr results"
    and "0 < length (computed_domains e self results)"
    and "length (computed_domains e self results) \<le> 300000"
    and "get_lists cf (name_prefix self) s = (Inr cf_lists, s1)"
  shows "run e web cf self (s, log) =
     (if int (length (computed_domains e self results)) = sum_list (map list_count cf_lists) then
       bind (remote (Get_firewall_policies (name_prefix self))
               (get_firewall_policies cf (name_prefix self)))
         (\<lambda>cf_policies.
       if length cf_policies = 0 then
         bind (remote (Create_gateway_policy (name_prefix self @ '' Block Ads'')
                         (map list_id cf_lists))
                 (create_gateway_policy cf (name_prefix self @ '' Block Ads'')
                    (map list_id cf_lists)))
           (\<lambda>cf_policies. return ())
       else return ())
     else
       bind (remote (Delete_gateway_policy (name_prefix self @ '' Block Ads''))
               (delete_gateway_policy cf (name_prefix self @ '' Block Ads'')))
         (\<lambda>deleted_policies.
       bind (delete_lists cf cf_lists)
         (\<lambda>_.
       bind (create_lists cf self (computed_domains e self results))
         (\<lambda>cf_lists.
       bind (remote (Get_firewall_policies (name_prefix self))
               (get_firewall_policies cf (name_prefix self)))
         (\<lambda>cf_policies.
       if length cf_policies = 0 then
         bind (remote (Create_gateway_policy (name_prefix self @ '' Block Ads'')
                         (map list_id cf_lists))
                 (create_gateway_policy cf (name_prefix self @ '' Block Ads'')
                    (map list_id cf_lists)))
           (\<lambda>cf_policies. return ())
       else if length cf_policies \<noteq> 1 then
         raise (Exception ''More than one firewall policy found'')
       else
         remote (Update_gateway_policy (name_prefix self @ '' Block Ads'')
                   (policy_id (cf_policies ! 0)) (map list_id cf_lists))
           (update_gateway_policy cf (name_prefix self @ '' Block Ads'')
              (policy_id (cf_policies ! 0)) (map list_id cf_lists)))))))
       (s1, log @ [Get_lists (name_prefix self)])"
proof -
  let ?p = "name_prefix self"
  let ?d = "computed_domains e self results"
  have dl: "bind (gather (map (download_file web) (adlist_urls self @ whitelist_urls self))) f
          (s, log) = f results (s, log)" for f :: "string list \<Rightarrow> ('a, unit) io"
    using gather_download [OF assms(1), of "(s, log)"] by (simp add: bind_def)
  have gl: "bind (remote (Get_lists ?p) (get_lists cf ?p)) f (s, log) =
          f cf_lists (s1, log @ [Get_lists ?p])" for f :: "cf_list list \<Rightarrow> ('a, unit) io"
    using assms(4) by (simp add: bind_def remote_def)
  have guards: "length ?d \<noteq> 0" "\<not> 300000 < length ?d"
    using assms(2,3) by simp_all
  show ?thesis
    unfolding run_def dl Let_def
    apply (simp only: guards if_False)
    apply (simp only: gl)
    done
qed

lemma run_same_size_policy_exists:
  assumes "map web (adlist_urls self @ whitelist_urls self) = map Inr results"
    and "0 < length (computed_domains e self results)"
    and "length (computed_domains e self results) \<le> 300000"
    and "get_lists cf (name_prefix self) s = (Inr cf_lists, s1)"
    and "int (length (computed_domains e self results)) = sum_list (map list_count cf_lists)"
    and "get_firewall_policies cf (name_prefix self) s1 = (Inr cf_policies, s2)"
    and "0 < length cf_policies"
  shows "run e web cf self (s, log) =
           (Inr (), (s2, log @ [Get_lists (name_prefix self),
                                Get_firewall_policies (name_prefix self)]))"
proof -
  have ne: "length cf_policies \<noteq> 0"
    using assms(7) by simp
  show ?thesis
    unfolding run_past_guards [OF assms(1-4)]
    using assms(6) ne
    by (simp add: assms(5) bind_def remote_def return_def)
qed

lemma run_rebuild_many_policies:
  assumes "map web (adlist_urls self @ whitelist_urls self) = map Inr results"
    and "0 < length (computed_domains e self results)"
    and "length (computed_domains e self results) \<le> 300000"
    and "get_lists cf (name_prefix self) s = (Inr cf_lists, s1)"
    and "int (length (computed_domains e self results)) \<noteq> sum_list (map list_count cf_lists)"
    and "delete_gateway_policy cf (name_prefix self @ '' Block Ads'') s1 = (Inr n, s2)"
    and "delete_lists cf cf_lists
           (s2, log @ [Get_lists (name_prefix self),
                       Delete_gateway_policy (name_prefix self @ '' Block Ads'')]) =
           (Inr ds, w3)"
    and "create_lists cf self (computed_domains e self results) w3 = (Inr new_lists, w4)"
    and "get_firewall_policies cf (name_prefix self) (fst w4) = (Inr cf_policies, s5)"
    and "1 < length cf_policies"
  shows "run e web cf self (s, log) =
           (Inl (Exception ''More than one firewall policy found''),
            (s5, snd w4 @ [Get_firewall_policies (name_prefix self)]))"
    and "\<exists>chunks. chunk_list (computed_domains e self results) 1000 = Inr chunks \<and>
           snd w4 =
             log @ [Get_lists (name_prefix self),
                    Delete_gateway_policy (name_prefix self @ '' Block Ads'')] @
             map (\<lambda>l. Delete_list (list_name l) (list_id l)) cf_lists @
             map (\<lambda>(i, chunk). Create_list (name_prefix self @ '' '' @ str_nat (i + 1)) chunk)
               (enumerate 0 chunks)"
proof -
  have ne: "length cf_policies \<noteq> 0" "length cf_policies \<noteq> 1"
    using assms(10) by auto
  show "run e web cf self (s, log) =
           (Inl (Exception ''More than one firewall policy found''),
            (s5, snd w4 @ [Get_firewall_policies (name_prefix self)]))"
    unfolding run_past_guards [OF assms(1-4)]
    using assms(5-9) ne
    by (simp add: bind_def remote_def raise_def)
  from delete_lists_log [OF assms(7)] create_lists_log [OF assms(8)]
  show "\<exists>chunks. chunk_list (computed_domains e self results) 1000 = Inr chunks \<and>
           snd w4 =
             log @ [Get_lists (name_prefix self),
                    Delete_gateway_policy (name_prefix self @ '' Block Ads'')] @
             map (\<lambda>l. Delete_list (list_name l) (list_id l)) cf_lists @
             map (\<lambda>(i, chunk). Create_list (name_prefix self @ '' '' @ str_nat (i + 1)) chunk)
               (enumerate 0 chunks)"
    by auto
qed

lemma same_size_get_lists:
  "get_lists spec_cloudflare (name_prefix example_app) store_same_size =
     (Inr [\<lparr> list_id = ''l1'', list_name = ''[AdBlock-x] 1'', list_count = 1 \<rparr>],
      store_same_size)"
  by (simp add: spec_cloudflare_def example_name_prefix store_same_size_def startswith_def)

lemma same_size_get_policies:
  "get_firewall_policies spec_cloudflare (name_prefix example_app) store_same_size =
     (Inr two_policies, store_same_size)"
  by (simp add: spec_cloudflare_def example_name_prefix store_same_size_def two_policies_def
      startswith_def)

lemma other_size_get_lists:
  "get_lists spec_cloudflare (name_prefix example_app) store_other_size =
     (Inr [\<lparr> list_id = ''l1'', list_name = ''[AdBlock-x] 1'', list_count = 5 \<rparr>],
      store_other_size)"
  by (simp add: spec_cloudflare_def example_name_prefix store_other_size_def startswith_def)

lemma other_size_delete_policy:
  "delete_gateway_policy spec_cloudflare (name_prefix example_app @ '' Block Ads'')
     store_other_size = (Inr 0, store_other_size)"
  by (simp add: spec_cloudflare_def example_name_prefix store_other_size_def two_policies_def
      startswith_def)

lemma other_size_delete_lists:
  "delete_lists spec_cloudflare
     [\<lparr> list_id = ''l1'', list_name = ''[AdBlock-x] 1'', list_count = 5 \<rparr>]
     (store_other_size, log) =
     (Inr [()],
      (store_other_size \<lparr> lists := [] \<rparr>, log @ [Delete_list ''[AdBlock-x] 1'' ''l1'']))"
  by (simp add: delete_lists_def bind_def return_def remote_def spec_cloudflare_def
      store_other_size_def)

lemma other_size_create_lists:
  "create_lists spec_cloudflare example_app [''a.io'']
     (store_other_size \<lparr> lists := [] \<rparr>, log) =
     (Inr [\<lparr> list_id = ''l3'', list_name = ''[AdBlock-x] 1'', list_count = 1 \<rparr>],
      (store_rebuilt, log @ [Create_list ''[AdBlock-x] 1'' [''a.io'']]))"
proof -
  have "chunk_list [''a.io''] 1000 = Inr [[''a.io'']]"
    by (simp add: chunk_list_def range_from.simps)
  then show ?thesis
    by (simp add: create_lists_def lift_def bind_def return_def remote_def enumerate_eq_zip
        spec_cloudflare_def example_name_prefix store_other_size_def store_rebuilt_def
        str_nat.simps)
qed

lemma rebuilt_get_policies:
  "get_firewall_policies spec_cloudflare (name_prefix example_app) store_rebuilt =
     (Inr two_policies, store_rebuilt)"
  by (simp add: spec_cloudflare_def example_name_prefix store_rebuilt_def two_policies_def
      startswith_def)

lemma other_size_get_policies:
  "get_firewall_policies spec_cloudflare (name_prefix example_app) store_other_size =
     (Inr two_policies, store_other_size)"
  by (simp add: spec_cloudflare_def example_name_prefix store_other_size_def two_policies_def
      startswith_def)

lemma example_run_same_size:
  "run spec_patterns example_web spec_cloudflare example_app (store_same_size, []) =
     (Inr (), (store_same_size,
               [Get_lists ''[AdBlock-x]'', Get_firewall_policies ''[AdBlock-x]'']))"
proof -
  have g2: "0 < length (computed_domains spec_patterns example_app [''a.io''])"
    and g3: "length (computed_domains spec_patterns example_app [''a.io'']) \<le> 300000"
    by (simp_all add: computed_domains_example)
  have a1: "int (length (computed_domains spec_patterns example_app [''a.io''])) =
      sum_list (map list_count
        [\<lparr> list_id = ''l1'', list_name = ''[AdBlock-x] 1'', list_count = 1 \<rparr>])"
    by (simp add: computed_domains_example)
  have two: "0 < length two_policies"
    by (simp add: two_policies_def)
  from run_same_size_policy_exists [OF example_downloads g2 g3 same_size_get_lists a1
      same_size_get_policies two, of "[]"]
  show ?thesis
    by (simp add: example_name_prefix)
qed

lemma example_run_other_size:
  "run spec_patterns example_web spec_cloudflare example_app (store_other_size, []) =
     (Inl (Exception ''More than one firewall policy found''),
      (store_rebuilt,
       [Get_lists ''[AdBlock-x]'', Delete_gateway_policy ''[AdBlock-x] Block Ads'',
        Delete_list ''[AdBlock-x] 1'' ''l1'', Create_list ''[AdBlock-x] 1'' [''a.io''],
        Get_firewall_policies ''[AdBlock-x]'']))"
proof -
  let ?log2 = "[] @ [Get_lists (name_prefix example_app),
                     Delete_gateway_policy (name_prefix example_app @ '' Block Ads'')]"
  let ?log3 = "?log2 @ [Delete_list ''[AdBlock-x] 1'' ''l1'']"
  let ?log4 = "?log3 @ [Create_list ''[AdBlock-x] 1'' [''a.io'']]"
  have g2: "0 < length (computed_domains spec_patterns example_app [''a.io''])"
    and g3: "length (computed_domains spec_patterns example_app [''a.io'']) \<le> 300000"
    by (simp_all add: computed_domains_example)
  have b1: "int (length (computed_domains spec_patterns example_app [''a.io''])) \<noteq>
      sum_list (map list_count
        [\<lparr> list_id = ''l1'', list_name = ''[AdBlock-x] 1'', list_count = 5 \<rparr>])"
    by (simp add: computed_domains_example)
  have b3: "delete_lists spec_cloudflare
      [\<lparr> list_id = ''l1'', list_name = ''[AdBlock-x] 1'', list_count = 5 \<rparr>]
      (store_other_size, ?log2) = (Inr [()], (store_other_size \<lparr> lists := [] \<rparr>, ?log3))"
    by (rule other_size_delete_lists)
  have b4: "create_lists spec_cloudflare example_app
      (computed_domains spec_patterns example_app [''a.io''])
      (store_other_size \<lparr> lists := [] \<rparr>, ?log3) =
      (Inr [\<lparr> list_id = ''l3'', list_name = ''[AdBlock-x] 1'', list_count = 1 \<rparr>],
       (store_rebuilt, ?log4))"
    unfolding computed_domains_example by (rule other_size_create_lists)
  have b5: "get_firewall_policies spec_cloudflare (name_prefix example_app)
      (fst (store_rebuilt, ?log4)) = (Inr two_policies, store_rebuilt)"
    by (simp add: rebuilt_get_policies)
  have two: "1 < length two_policies"
    by (simp add: two_policies_def)
  from run_rebuild_many_policies(1) [OF example_downloads g2 g3 other_size_get_lists b1
      other_size_delete_policy b3 b4 b5 two]
  show ?thesis
    by (simp add: example_name_prefix)
qed

section \<open>Claims about remove_subdomains\<close>

text \<open>
  C1 (amended). A domain is in the output of \<open>remove_subdomains\<close> exactly when it is in
  the input and either has one label or is a strict subdomain of no domain of the input
  that has two labels or more. So the output is a subset of the input; no output domain is
  a strict subdomain of a domain of the input, or of the output, with two labels or more;
  every one-label domain of the input is kept; a domain of the input is dropped only when
  one of its strict ancestors with two labels or more is in the input; and a one-label
  domain absorbs nothing: adding it to the input adds it to the output and changes nothing
  else.
\<close>

theorem remove_subdomains_exact:
  "(\<forall>d. d \<in> remove_subdomains domains \<longleftrightarrow>
        d \<in> domains \<and>
        (CHR ''.'' \<notin> set d \<or>
         \<not> (\<exists>b \<in> domains. CHR ''.'' \<in> set b \<and> strict_subdomain_of d b))) \<and>
   remove_subdomains domains \<subseteq> domains \<and>
   (\<forall>a \<in> remove_subdomains domains. \<forall>b \<in> domains.
      CHR ''.'' \<in> set b \<longrightarrow> \<not> strict_subdomain_of a b) \<and>
   (\<forall>a \<in> remove_subdomains domains. \<forall>b \<in> remove_subdomains domains.
      CHR ''.'' \<in> set b \<longrightarrow> \<not> strict_subdomain_of a b) \<and>
   (\<forall>d \<in> domains. CHR ''.'' \<notin> set d \<longrightarrow> d \<in> remove_subdomains domains) \<and>
   (\<forall>d \<in> domains. d \<notin> remove_subdomains domains \<longrightarrow>
      (\<exists>b \<in> domains. CHR ''.'' \<in> set b \<and> strict_subdomain_of d b)) \<and>
   (\<forall>c. CHR ''.'' \<notin> set c \<longrightarrow>
      remove_subdomains (insert c domains) = insert c (remove_subdomains domains))"
proof -
  have iff: "d \<in> remove_subdomains D \<longleftrightarrow>
        d \<in> D \<and>
        (CHR ''.'' \<notin> set d \<or> \<not> (\<exists>b \<in> D. CHR ''.'' \<in> set b \<and> strict_subdomain_of d b))"
    for d D
    by (auto simp: remove_subdomains_iff)
  have sub: "remove_subdomains domains \<subseteq> domains"
    by (rule remove_subdomains_subset)
  have inp: "\<not> strict_subdomain_of a b"
    if "a \<in> remove_subdomains domains" "b \<in> domains" "CHR ''.'' \<in> set b" for a b
  proof
    assume ab: "strict_subdomain_of a b"
    then have "CHR ''.'' \<in> set a"
      by (rule strict_subdomain_of_dot)
    with that ab show False
      by (auto simp: iff)
  qed
  have kept: "d \<in> remove_subdomains domains" if "d \<in> domains" "CHR ''.'' \<notin> set d" for d
    using that by (simp add: iff)
  have dropped: "\<exists>b \<in> domains. CHR ''.'' \<in> set b \<and> strict_subdomain_of d b"
    if "d \<in> domains" "d \<notin> remove_subdomains domains" for d
    using that by (auto simp: iff)
  have ins: "remove_subdomains (insert c domains) = insert c (remove_subdomains domains)"
    if "CHR ''.'' \<notin> set c" for c
  proof (rule set_eqI)
    fix d
    show "d \<in> remove_subdomains (insert c domains) \<longleftrightarrow>
          d \<in> insert c (remove_subdomains domains)"
      using that by (auto simp: iff)
  qed
  from iff [of _ domains] sub inp kept dropped ins show ?thesis
    by blast
qed

theorem remove_subdomains_exact_witness:
  "''com'' \<in> remove_subdomains {''com'', ''a.com'', ''b.a.com''} \<and>
   ''a.com'' \<in> remove_subdomains {''com'', ''a.com'', ''b.a.com''} \<and>
   strict_subdomain_of ''a.com'' ''com'' \<and>
   ''b.a.com'' \<notin> remove_subdomains {''com'', ''a.com'', ''b.a.com''} \<and>
   strict_subdomain_of ''b.a.com'' ''a.com''"
proof -
  let ?D = "{''com'', ''a.com'', ''b.a.com''}"
  have s1: "strict_subdomain_of ''a.com'' b \<longleftrightarrow> b = ''com''" for b
    by (simp add: higher_domains_iff [symmetric] higher_domains_def upt_rec)
  have s2: "strict_subdomain_of ''b.a.com'' b \<longleftrightarrow> b = ''a.com'' \<or> b = ''com''" for b
    by (simp add: higher_domains_iff [symmetric] higher_domains_def upt_rec)
  from remove_subdomains_exact [of ?D, THEN conjunct1]
  have iff: "d \<in> remove_subdomains ?D \<longleftrightarrow>
        d \<in> ?D \<and>
        (CHR ''.'' \<notin> set d \<or> \<not> (\<exists>b \<in> ?D. CHR ''.'' \<in> set b \<and> strict_subdomain_of d b))"
    for d
    by blast
  have "''com'' \<in> remove_subdomains ?D"
    by (subst iff) simp
  moreover have "''a.com'' \<in> remove_subdomains ?D"
    by (subst iff) (simp add: s1)
  moreover have "''b.a.com'' \<notin> remove_subdomains ?D"
    by (subst iff) (simp add: s2)
  ultimately show ?thesis
    by (simp add: s1 s2)
qed

theorem remove_subdomains_single_label_counterexample:
  "''com'' \<in> remove_subdomains {''com'', ''a.com''} \<and>
   ''a.com'' \<in> remove_subdomains {''com'', ''a.com''} \<and>
   strict_subdomain_of ''a.com'' ''com''"
  by (simp add: remove_subdomains_def is_subdomain_def strict_subdomain_of_def upt_rec)

text \<open>
  C3. Every domain of the input of \<open>remove_subdomains\<close> is in the output, or one of its
  strict ancestors is.
\<close>

theorem remove_subdomains_coverage:
  "d \<in> domains \<Longrightarrow>
   d \<in> remove_subdomains domains \<or>
   (\<exists>b \<in> remove_subdomains domains. strict_subdomain_of d b)"
proof (induction "length d" arbitrary: d rule: less_induct)
  case less
  show ?case
  proof (cases "d \<in> remove_subdomains domains")
    case True
    then show ?thesis by simp
  next
    case False
    with less.prems obtain b where b: "b \<in> domains" "strict_subdomain_of d b"
      by (auto simp: remove_subdomains_iff)
    then have "length b < length d"
      by (simp add: strict_subdomain_of_length)
    from less.hyps [OF this b(1)] b(2) show ?thesis
      by (blast intro: strict_subdomain_of_trans)
  qed
qed

theorem remove_subdomains_coverage_witness:
  "''x.ads.io'' \<in> {''x.ads.io'', ''ads.io''} \<and>
   ''x.ads.io'' \<notin> remove_subdomains {''x.ads.io'', ''ads.io''} \<and>
   (\<exists>b \<in> remove_subdomains {''x.ads.io'', ''ads.io''}. strict_subdomain_of ''x.ads.io'' b)"
proof -
  let ?D = "{''x.ads.io'', ''ads.io''}"
  have h: "''x.ads.io'' \<in> ?D"
    by simp
  have out: "''x.ads.io'' \<notin> remove_subdomains ?D"
    by (simp add: remove_subdomains_def is_subdomain_def upt_rec)
  from remove_subdomains_coverage [OF h] h out show ?thesis
    by blast
qed

section \<open>Claims about chunk_list\<close>

text \<open>
  C7. For a positive chunk size \<open>n\<close>, \<open>chunk_list\<close> yields the slices
  \<open>xs[0:n]\<close>, \<open>xs[n:2n]\<close>, ... in this order; their concatenation is the input, each is
  at most \<open>n\<close> long, and each but the last is exactly \<open>n\<close> long.
\<close>

theorem chunk_list_slices:
  assumes "0 < n"
  shows "\<exists>chunks. chunk_list xs n = Inr chunks \<and>
           concat chunks = xs \<and>
           (\<forall>k < length chunks. chunks ! k = take (nat n) (drop (k * nat n) xs)) \<and>
           (\<forall>c \<in> set chunks. length c \<le> nat n) \<and>
           (\<forall>k. Suc k < length chunks \<longrightarrow> length (chunks ! k) = nat n)"
proof -
  let ?m = "nat n"
  let ?r = "range_from 0 (length xs) ?m"
  let ?cs = "map (\<lambda>i. take ?m (drop i xs)) ?r"
  from assms have m: "0 < ?m" by simp
  have eq: "chunk_list xs n = Inr ?cs"
    using assms by (simp add: chunk_list_def)
  have cat: "concat ?cs = xs"
    using concat_chunks [OF m, of xs 0] by simp
  have nth: "?cs ! k = take ?m (drop (k * ?m) xs)" if "k < length ?cs" for k
    using that by (simp add: range_from_nth)
  have le: "length c \<le> ?m" if "c \<in> set ?cs" for c
    using that by auto
  have full: "length (?cs ! k) = ?m" if "Suc k < length ?cs" for k
  proof -
    from that have "?r ! Suc k \<in> set ?r"
      by simp
    then have "?r ! Suc k < length xs"
      by (rule range_from_less)
    with that have "Suc k * ?m < length xs"
      by (simp add: range_from_nth)
    moreover from that have "?cs ! k = take ?m (drop (k * ?m) xs)"
      by (simp add: range_from_nth)
    ultimately show ?thesis
      by simp
  qed
  from eq cat nth le full show ?thesis
    by blast
qed

theorem chunk_list_slices_witness:
  "(0::int) < 3 \<and> chunk_list ''abcdefg'' 3 = Inr [''abc'', ''def'', ''g'']"
proof -
  have h: "(0::int) < 3"
    by simp
  have "chunk_list ''abcdefg'' 3 = Inr [''abc'', ''def'', ''g'']"
    by (simp add: chunk_list_def range_from.simps)
  with h chunk_list_slices [OF h, of "''abcdefg''"] show ?thesis
    by simp
qed

section \<open>Claims about convert_domains\<close>

text \<open>
  C8. \<open>convert_domains\<close> returns \<open>None\<close> for the empty line and for every line whose
  first character is \<open>#\<close>, \<open>!\<close> or \<open>/\<close>.
\<close>

theorem convert_domains_rejects_comments:
  assumes "line = [] \<or>
           (\<exists>rest. line = CHR ''#'' # rest \<or> line = CHR ''!'' # rest \<or> line = CHR ''/'' # rest)"
  shows "convert_domains e line = None"
  using assms by (auto simp: convert_domains_def startswith_def)

theorem convert_domains_rejects_comments_witness:
  "convert_domains spec_patterns [] = None \<and>
   convert_domains spec_patterns ''#a.io'' = None \<and>
   convert_domains spec_patterns ''!a.io'' = None \<and>
   convert_domains spec_patterns ''/a.io'' = None \<and>
   convert_domains spec_patterns ''a.io'' = Some ''a.io''"
proof -
  have "convert_domains spec_patterns ''a.io'' = Some ''a.io''"
    by (simp add: convert_domains_def startswith_def lower_def lower_char_def strip_def
        isspace_def remove_char_def spec_patterns_def strip_decoration_def ascii_only_def
        domain_grammar_def label_ok_def isalnum_def ipv4_literal_def isdigit_def)
  then show ?thesis
    using convert_domains_rejects_comments [of "[]" spec_patterns]
      convert_domains_rejects_comments [of "''#a.io''" spec_patterns]
      convert_domains_rejects_comments [of "''!a.io''" spec_patterns]
      convert_domains_rejects_comments [of "''/a.io''" spec_patterns]
    by simp
qed

text \<open>
  C9. A domain that is lowercase, is its own IDNA form, matches the domain grammar (the
  grammar of the spec, and the pattern in use accepts it), is not an IP literal, and
  carries none of the decoration that the prefix pattern strips, is returned unchanged.
\<close>

theorem convert_domains_canonical:
  assumes "lower d = d"
    and "idna_codec e d = Some d"
    and "domain_grammar d"
    and "domain_pattern_match e d"
    and "\<not> ip_pattern_match e d"
    and "replace_pattern_sub e d = d"
  shows "convert_domains e d = Some d"
proof -
  note ch = domain_grammar_chars [OF assms(3)]
  from assms(3) have ne: "d \<noteq> []"
    by (rule domain_grammar_not_Nil)
  then obtain c cs where d: "d = c # cs"
    by (cases d) auto
  then have "domain_char c"
    using ch by simp
  then have start: "\<not> startswith d ''#''" "\<not> startswith d ''!''" "\<not> startswith d ''/''"
    using domain_char_plain [of c] by (simp_all add: startswith_def d)
  have "strip d = d"
    using ch by (intro strip_no_space) (auto dest: domain_char_plain)
  moreover have "split_on CHR ''#'' d = [d]" "split_on CHR ''^'' d = [d]"
    using ch by (auto intro!: split_on_absent dest: domain_char_plain)
  moreover have "remove_char (CHR 0x0D) d = d"
    using ch by (auto intro!: remove_char_absent dest: domain_char_plain)
  ultimately show ?thesis
    using start ne assms by (simp add: convert_domains_def)
qed

theorem convert_domains_canonical_witness:
  "lower ''ads.example.com'' = ''ads.example.com'' \<and>
   idna_codec spec_patterns ''ads.example.com'' = Some ''ads.example.com'' \<and>
   domain_grammar ''ads.example.com'' \<and>
   domain_pattern_match spec_patterns ''ads.example.com'' \<and>
   \<not> ip_pattern_match spec_patterns ''ads.example.com'' \<and>
   replace_pattern_sub spec_patterns ''ads.example.com'' = ''ads.example.com'' \<and>
   convert_domains spec_patterns ''ads.example.com'' = Some ''ads.example.com''"
proof -
  have h1: "lower ''ads.example.com'' = ''ads.example.com''"
    by (simp add: lower_def lower_char_def)
  have h2: "idna_codec spec_patterns ''ads.example.com'' = Some ''ads.example.com''"
    by (simp add: spec_patterns_def ascii_only_def)
  have h3: "domain_grammar ''ads.example.com''"
    by (simp add: domain_grammar_def label_ok_def isalnum_def)
  have h4: "domain_pattern_match spec_patterns ''ads.example.com''"
    using h3 by (simp add: spec_patterns_def)
  have h5: "\<not> ip_pattern_match spec_patterns ''ads.example.com''"
    by (simp add: spec_patterns_def ipv4_literal_def)
  have h6: "replace_pattern_sub spec_patterns ''ads.example.com'' = ''ads.example.com''"
    by (simp add: spec_patterns_def strip_decoration_def startswith_def)
  from convert_domains_canonical [OF h1 h2 h3 h4 h5 h6] h1 h2 h3 h4 h5 h6 show ?thesis
    by simp
qed

section \<open>Claims about convert_to_domain_list\<close>

text \<open>
  C5. The final list is the ascending sort of the reduced block set minus the allow set:
  its elements are exactly those of the difference, none occurs twice, none is in the
  allow set, and the list is strictly ascending in Python's order on strings.
\<close>

theorem convert_to_domain_list_sorted_difference:
  "convert_to_domain_list e block_content white_content =
     sorted_list_of_set
       (remove_subdomains (collect_domains e block_content) - collect_domains e white_content) \<and>
   set (convert_to_domain_list e block_content white_content) =
     remove_subdomains (collect_domains e block_content) - collect_domains e white_content \<and>
   distinct (convert_to_domain_list e block_content white_content) \<and>
   sorted_wrt str_less (convert_to_domain_list e block_content white_content) \<and>
   (\<forall>d \<in> collect_domains e white_content.
      d \<notin> set (convert_to_domain_list e block_content white_content))"
proof -
  let ?S = "remove_subdomains (collect_domains e block_content) - collect_domains e white_content"
  have eq: "convert_to_domain_list e block_content white_content = sorted_list_of_set ?S"
    by (simp add: convert_to_domain_list_def)
  have fin: "finite ?S"
    by (rule finite_reduced_minus_allow)
  have "str_less = (<)"
    by (intro ext) (simp add: str_less_iff)
  moreover have "sorted_wrt (<) (sorted_list_of_set ?S)"
    by (rule strict_sorted_list_of_set)
  ultimately have "sorted_wrt str_less (sorted_list_of_set ?S)"
    by simp
  with eq fin show ?thesis
    by auto
qed

theorem convert_to_domain_list_sorted_difference_witness:
  "convert_to_domain_list spec_patterns
     (''t.io'' @ [CHR 0x0A] @ ''x.a.io'' @ [CHR 0x0A] @ ''b.io'' @ [CHR 0x0A] @ ''a.io'') ''t.io''
   = [''a.io'', ''b.io'']"
proof -
  let ?b = "''t.io'' @ [CHR 0x0A] @ ''x.a.io'' @ [CHR 0x0A] @ ''b.io'' @ [CHR 0x0A] @ ''a.io''"
  let ?D = "{''t.io'', ''x.a.io'', ''b.io'', ''a.io''}"
  have cd: "convert_domains spec_patterns ''t.io'' = Some ''t.io''"
    "convert_domains spec_patterns ''x.a.io'' = Some ''x.a.io''"
    "convert_domains spec_patterns ''b.io'' = Some ''b.io''"
    "convert_domains spec_patterns ''a.io'' = Some ''a.io''"
    by (simp_all add: convert_domains_def startswith_def lower_def lower_char_def strip_def
        isspace_def remove_char_def spec_patterns_def strip_decoration_def ascii_only_def
        domain_grammar_def label_ok_def isalnum_def ipv4_literal_def isdigit_def)
  have b: "collect_domains spec_patterns ?b = ?D"
    by (auto simp: collect_domains_def is_linebreak_def add_domain_def cd)
  have w: "collect_domains spec_patterns ''t.io'' = {''t.io''}"
    by (simp add: collect_domains_def is_linebreak_def add_domain_def cd)
  have m: "''t.io'' \<in> remove_subdomains ?D" "''b.io'' \<in> remove_subdomains ?D"
    "''a.io'' \<in> remove_subdomains ?D" "''x.a.io'' \<notin> remove_subdomains ?D"
    by (simp_all add: remove_subdomains_def is_subdomain_def upt_rec)
  have "remove_subdomains ?D \<subseteq> ?D"
    by (rule remove_subdomains_subset)
  with m have d: "remove_subdomains ?D - {''t.io''} = {''b.io'', ''a.io''}"
    by auto
  have s: "sorted_list_of_set {''b.io'', ''a.io''} = [''a.io'', ''b.io'']"
    by (simp add: less_eq_char_def less_char_def)
  from convert_to_domain_list_sorted_difference [of spec_patterns ?b "''t.io''"]
  have "convert_to_domain_list spec_patterns ?b ''t.io'' =
          sorted_list_of_set (remove_subdomains (collect_domains spec_patterns ?b) -
            collect_domains spec_patterns ''t.io'')"
    by (rule conjunct1)
  then show ?thesis
    by (simp only: b w d s)
qed

text \<open>
  C10. Only an exact match with an allowed domain removes a domain from the final list: a
  domain is in the final list if and only if it survives the reduction of the block set
  and is not itself in the allow set, which is the set of all normalized allow lines,
  never reduced. So a surviving strict subdomain of an allowed domain stays.
\<close>

theorem convert_to_domain_list_exact_allow:
  "(d \<in> set (convert_to_domain_list e block_content white_content) \<longleftrightarrow>
      d \<in> remove_subdomains (collect_domains e block_content) \<and>
      d \<notin> collect_domains e white_content) \<and>
   (\<forall>a. d \<in> remove_subdomains (collect_domains e block_content) \<and>
        a \<in> collect_domains e white_content \<and> strict_subdomain_of d a \<and>
        d \<notin> collect_domains e white_content \<longrightarrow>
        d \<in> set (convert_to_domain_list e block_content white_content))"
  using finite_reduced_minus_allow [of e block_content white_content]
  by (simp add: convert_to_domain_list_def)

theorem convert_to_domain_list_exact_allow_witness:
  "''x.a.io'' \<in> remove_subdomains (collect_domains spec_patterns ''x.a.io'') \<and>
   ''a.io'' \<in> collect_domains spec_patterns ''a.io'' \<and>
   strict_subdomain_of ''x.a.io'' ''a.io'' \<and>
   ''x.a.io'' \<notin> collect_domains spec_patterns ''a.io'' \<and>
   ''x.a.io'' \<in> set (convert_to_domain_list spec_patterns ''x.a.io'' ''a.io'')"
proof -
  have cd: "convert_domains spec_patterns ''x.a.io'' = Some ''x.a.io''"
    "convert_domains spec_patterns ''a.io'' = Some ''a.io''"
    by (simp_all add: convert_domains_def startswith_def lower_def lower_char_def strip_def
        isspace_def remove_char_def spec_patterns_def strip_decoration_def ascii_only_def
        domain_grammar_def label_ok_def isalnum_def ipv4_literal_def isdigit_def)
  have b: "collect_domains spec_patterns ''x.a.io'' = {''x.a.io''}"
    by (simp add: collect_domains_def is_linebreak_def add_domain_def cd)
  have w: "collect_domains spec_patterns ''a.io'' = {''a.io''}"
    by (simp add: collect_domains_def is_linebreak_def add_domain_def cd)
  have r: "''x.a.io'' \<in> remove_subdomains {''x.a.io''}"
    by (simp add: remove_subdomains_def is_subdomain_def upt_rec)
  have s: "strict_subdomain_of ''x.a.io'' ''a.io''"
    by (simp add: strict_subdomain_of_def)
  have n: "''x.a.io'' \<notin> {''a.io''}"
    by simp
  from convert_to_domain_list_exact_allow [of "''x.a.io''" spec_patterns "''x.a.io''" "''a.io''"]
    r s n show ?thesis
    by (simp add: b w)
qed

section \<open>Claims about run\<close>

text \<open>
  C4. When every download succeeds and the computed final list is empty or longer than
  300000, \<open>run\<close> returns without an exception and leaves the world as it was: the remote
  store is unchanged and no call to it, read or mutation, has been issued.
\<close>

theorem run_size_guards:
  assumes "map web (adlist_urls self @ whitelist_urls self) = map Inr results"
    and "length (computed_domains e self results) = 0 \<or>
         300000 < length (computed_domains e self results)"
  shows "run e web cf self w = (Inr (), w)"
proof -
  from assms(1)
  have "gather (map (download_file web) (adlist_urls self @ whitelist_urls self)) w =
          (Inr results, w)"
    by (rule gather_download)
  with assms(2) show ?thesis
    unfolding run_def by (auto simp: bind_def return_def Let_def)
qed

theorem run_size_guards_witness:
  "map example_web (adlist_urls comment_app @ whitelist_urls comment_app) = map Inr [''#a.io''] \<and>
   length (computed_domains spec_patterns comment_app [''#a.io'']) = 0 \<and>
   run spec_patterns example_web spec_cloudflare comment_app (store_other_size, []) =
     (Inr (), (store_other_size, []))"
proof -
  have h1: "map example_web (adlist_urls comment_app @ whitelist_urls comment_app) =
              map Inr [''#a.io'']"
    by (simp add: example_web_def comment_app_def)
  have h2: "length (computed_domains spec_patterns comment_app [''#a.io'']) = 0"
    by (simp add: computed_domains_comment)
  from h2 have h3: "length (computed_domains spec_patterns comment_app [''#a.io'']) = 0 \<or>
      300000 < length (computed_domains spec_patterns comment_app [''#a.io''])"
    by simp
  from run_size_guards [OF h1 h3, of spec_cloudflare "(store_other_size, [])"] h1 h2
  show ?thesis
    by simp
qed

text \<open>
  C6 (amended). When every download succeeds, the final list is not empty and at most
  300000 long, the remote lists' counts sum to its size and the store reports no policy
  for the namespace, \<open>run\<close> issues exactly three calls: the two reads and the creation of
  the gateway policy over the identifiers of the existing lists. It ends with the outcome
  of that creation; no list is deleted or created.
\<close>

theorem run_create_policy_only:
  assumes "map web (adlist_urls self @ whitelist_urls self) = map Inr results"
    and "0 < length (computed_domains e self results)"
    and "length (computed_domains e self results) \<le> 300000"
    and "get_lists cf (name_prefix self) s = (Inr cf_lists, s1)"
    and "int (length (computed_domains e self results)) = sum_list (map list_count cf_lists)"
    and "get_firewall_policies cf (name_prefix self) s1 = (Inr [], s2)"
    and "create_gateway_policy cf (name_prefix self @ '' Block Ads'') (map list_id cf_lists) s2 =
           (r, s3)"
  shows "run e web cf self (s, log) =
           ((case r of Inl err \<Rightarrow> Inl err | Inr p \<Rightarrow> Inr ()),
            (s3, log @ [Get_lists (name_prefix self),
                        Get_firewall_policies (name_prefix self),
                        Create_gateway_policy (name_prefix self @ '' Block Ads'')
                          (map list_id cf_lists)]))"
proof -
  let ?p = "name_prefix self"
  let ?d = "computed_domains e self results"
  have dl: "bind (gather (map (download_file web) (adlist_urls self @ whitelist_urls self))) f
          (s, log) = f results (s, log)" for f :: "string list \<Rightarrow> ('a, unit) io"
    using gather_download [OF assms(1), of "(s, log)"] by (simp add: bind_def)
  have gl: "bind (remote (Get_lists ?p) (get_lists cf ?p)) f (s, log) =
          f cf_lists (s1, log @ [Get_lists ?p])" for f :: "cf_list list \<Rightarrow> ('a, unit) io"
    using assms(4) by (simp add: bind_def remote_def)
  have gp: "bind (remote (Get_firewall_policies ?p) (get_firewall_policies cf ?p)) f
          (s1, log @ [Get_lists ?p]) =
          f [] (s2, log @ [Get_lists ?p, Get_firewall_policies ?p])"
    for f :: "cf_policy list \<Rightarrow> ('a, unit) io"
    using assms(6) by (simp add: bind_def remote_def)
  have cp: "bind (remote (Create_gateway_policy (?p @ '' Block Ads'') (map list_id cf_lists))
          (create_gateway_policy cf (?p @ '' Block Ads'') (map list_id cf_lists)))
          (\<lambda>cf_policies. return ())
          (s2, log @ [Get_lists ?p, Get_firewall_policies ?p]) =
          ((case r of Inl err \<Rightarrow> Inl err | Inr p \<Rightarrow> Inr ()),
           (s3, log @ [Get_lists ?p, Get_firewall_policies ?p,
                 Create_gateway_policy (?p @ '' Block Ads'') (map list_id cf_lists)]))"
    using assms(7) by (cases r) (simp_all add: bind_def remote_def return_def)
  have guards: "length ?d \<noteq> 0" "\<not> 300000 < length ?d"
    using assms(2,3) by simp_all
  have "run e web cf self (s, log) =
          bind (remote (Get_lists ?p) (get_lists cf ?p))
            (\<lambda>cf_lists. bind (remote (Get_firewall_policies ?p) (get_firewall_policies cf ?p))
               (\<lambda>cf_policies.
                  if length cf_policies = 0 then
                    bind (remote (Create_gateway_policy (?p @ '' Block Ads'')
                                    (map list_id cf_lists))
                            (create_gateway_policy cf (?p @ '' Block Ads'')
                               (map list_id cf_lists)))
                      (\<lambda>cf_policies. return ())
                  else return ())) (s, log)"
    unfolding run_def dl Let_def
    apply (simp only: guards if_False)
    apply (simp only: gl assms(5) simp_thms if_True)
    done
  then show ?thesis
    by (simp only: gl gp cp list.size simp_thms if_True)
qed

theorem run_create_policy_only_witness:
  "run spec_patterns example_web spec_cloudflare example_app (store_no_policy, []) =
     (Inr (),
      (store_no_policy
         \<lparr> policies := [\<lparr> policy_id = ''p3'', policy_name = ''[AdBlock-x] Block Ads'',
                           policy_lists = [''l1''] \<rparr>],
           next_id := 4 \<rparr>,
       [Get_lists ''[AdBlock-x]'', Get_firewall_policies ''[AdBlock-x]'',
        Create_gateway_policy ''[AdBlock-x] Block Ads'' [''l1'']]))"
proof -
  let ?l = "\<lparr> list_id = ''l1'', list_name = ''[AdBlock-x] 1'', list_count = 1 \<rparr>"
  let ?p = "\<lparr> policy_id = ''p3'', policy_name = ''[AdBlock-x] Block Ads'',
              policy_lists = [''l1''] \<rparr>"
  have h2: "0 < length (computed_domains spec_patterns example_app [''a.io''])"
    and h3: "length (computed_domains spec_patterns example_app [''a.io'']) \<le> 300000"
    by (simp_all add: computed_domains_example)
  have h4: "get_lists spec_cloudflare (name_prefix example_app) store_no_policy =
              (Inr [?l], store_no_policy)"
    by (simp add: spec_cloudflare_def example_name_prefix store_no_policy_def startswith_def)
  have h5: "int (length (computed_domains spec_patterns example_app [''a.io''])) =
              sum_list (map list_count [?l])"
    by (simp add: computed_domains_example)
  have h6: "get_firewall_policies spec_cloudflare (name_prefix example_app) store_no_policy =
              (Inr [], store_no_policy)"
    by (simp add: spec_cloudflare_def store_no_policy_def)
  have h7: "create_gateway_policy spec_cloudflare (name_prefix example_app @ '' Block Ads'')
              (map list_id [?l]) store_no_policy =
              (Inr ?p, store_no_policy \<lparr> policies := [?p], next_id := 4 \<rparr>)"
    by (simp add: spec_cloudflare_def example_name_prefix store_no_policy_def str_nat.simps)
  from run_create_policy_only [OF example_downloads h2 h3 h4 h5 h6 h7, of "[]"]
  show ?thesis
    by (simp add: example_name_prefix)
qed

theorem run_create_policy_only_counterexample:
  "computed_domains spec_patterns comment_app [''#a.io''] = [] \<and>
   get_lists spec_cloudflare (name_prefix comment_app) empty_store = (Inr [], empty_store) \<and>
   get_firewall_policies spec_cloudflare (name_prefix comment_app) empty_store =
     (Inr [], empty_store) \<and>
   run spec_patterns example_web spec_cloudflare comment_app (empty_store, []) =
     (Inr (), (empty_store, []))"
proof -
  have "gather (map (download_file example_web)
          (adlist_urls comment_app @ whitelist_urls comment_app)) (empty_store, []) =
        (Inr [''#a.io''], (empty_store, []))"
    by (rule gather_download) (simp add: example_web_def comment_app_def)
  then have "run spec_patterns example_web spec_cloudflare comment_app (empty_store, []) =
     (Inr (), (empty_store, []))"
    unfolding run_def by (simp add: bind_def return_def computed_domains_comment)
  then show ?thesis
    by (simp add: computed_domains_comment spec_cloudflare_def empty_store_def)
qed

text \<open>
  C2 (amended). Past the size guards, with every download and every remote call
  succeeding, more than one policy in the namespace has two outcomes. When the remote
  lists' counts sum to the size of the final list, \<open>run\<close> returns without an exception
  after its two reads. Otherwise \<open>run\<close> issues the deletion of the policy, the deletion of
  every remote list and the creation of the new lists, and when the policies it then
  fetches again are more than one, it raises the exception of the multiple policies; it
  issues no creation and no update of a policy.
\<close>

theorem run_multiple_policies:
  assumes "map web (adlist_urls self @ whitelist_urls self) = map Inr results"
    and "0 < length (computed_domains e self results)"
    and "length (computed_domains e self results) \<le> 300000"
    and "get_lists cf (name_prefix self) s = (Inr cf_lists, s1)"
  shows
    "(int (length (computed_domains e self results)) = sum_list (map list_count cf_lists) \<and>
      get_firewall_policies cf (name_prefix self) s1 = (Inr cf_policies, s2) \<and>
      1 < length cf_policies \<longrightarrow>
      run e web cf self (s, log) =
        (Inr (), (s2, log @ [Get_lists (name_prefix self),
                             Get_firewall_policies (name_prefix self)]))) \<and>
     (int (length (computed_domains e self results)) \<noteq> sum_list (map list_count cf_lists) \<and>
      delete_gateway_policy cf (name_prefix self @ '' Block Ads'') s1 = (Inr n, t2) \<and>
      delete_lists cf cf_lists
        (t2, log @ [Get_lists (name_prefix self),
                    Delete_gateway_policy (name_prefix self @ '' Block Ads'')]) =
        (Inr ds, w3) \<and>
      create_lists cf self (computed_domains e self results) w3 = (Inr new_lists, w4) \<and>
      get_firewall_policies cf (name_prefix self) (fst w4) = (Inr re_policies, t5) \<and>
      1 < length re_policies \<longrightarrow>
      run e web cf self (s, log) =
        (Inl (Exception ''More than one firewall policy found''),
         (t5, snd w4 @ [Get_firewall_policies (name_prefix self)])) \<and>
      (\<exists>chunks. chunk_list (computed_domains e self results) 1000 = Inr chunks \<and>
         snd w4 =
           log @ [Get_lists (name_prefix self),
                  Delete_gateway_policy (name_prefix self @ '' Block Ads'')] @
           map (\<lambda>l. Delete_list (list_name l) (list_id l)) cf_lists @
           map (\<lambda>(i, chunk). Create_list (name_prefix self @ '' '' @ str_nat (i + 1)) chunk)
             (enumerate 0 chunks)))"
proof (intro conjI impI)
  assume a: "int (length (computed_domains e self results)) = sum_list (map list_count cf_lists) \<and>
      get_firewall_policies cf (name_prefix self) s1 = (Inr cf_policies, s2) \<and>
      1 < length cf_policies"
  then have "0 < length cf_policies"
    by auto
  with a show "run e web cf self (s, log) =
        (Inr (), (s2, log @ [Get_lists (name_prefix self),
                             Get_firewall_policies (name_prefix self)]))"
    by (intro run_same_size_policy_exists [OF assms]) simp_all
next
  assume b: "int (length (computed_domains e self results)) \<noteq> sum_list (map list_count cf_lists) \<and>
      delete_gateway_policy cf (name_prefix self @ '' Block Ads'') s1 = (Inr n, t2) \<and>
      delete_lists cf cf_lists
        (t2, log @ [Get_lists (name_prefix self),
                    Delete_gateway_policy (name_prefix self @ '' Block Ads'')]) =
        (Inr ds, w3) \<and>
      create_lists cf self (computed_domains e self results) w3 = (Inr new_lists, w4) \<and>
      get_firewall_policies cf (name_prefix self) (fst w4) = (Inr re_policies, t5) \<and>
      1 < length re_policies"
  then have b1: "int (length (computed_domains e self results)) \<noteq>
        sum_list (map list_count cf_lists)"
    and b2: "delete_gateway_policy cf (name_prefix self @ '' Block Ads'') s1 = (Inr n, t2)"
    and b3: "delete_lists cf cf_lists
        (t2, log @ [Get_lists (name_prefix self),
                    Delete_gateway_policy (name_prefix self @ '' Block Ads'')]) =
        (Inr ds, w3)"
    and b4: "create_lists cf self (computed_domains e self results) w3 = (Inr new_lists, w4)"
    and b5: "get_firewall_policies cf (name_prefix self) (fst w4) = (Inr re_policies, t5)"
    and b6: "1 < length re_policies"
    by simp_all
  show "run e web cf self (s, log) =
        (Inl (Exception ''More than one firewall policy found''),
         (t5, snd w4 @ [Get_firewall_policies (name_prefix self)]))"
    by (rule run_rebuild_many_policies(1) [OF assms b1 b2 b3 b4 b5 b6])
  show "\<exists>chunks. chunk_list (computed_domains e self results) 1000 = Inr chunks \<and>
         snd w4 =
           log @ [Get_lists (name_prefix self),
                  Delete_gateway_policy (name_prefix self @ '' Block Ads'')] @
           map (\<lambda>l. Delete_list (list_name l) (list_id l)) cf_lists @
           map (\<lambda>(i, chunk). Create_list (name_prefix self @ '' '' @ str_nat (i + 1)) chunk)
             (enumerate 0 chunks)"
    by (rule run_rebuild_many_policies(2) [OF assms b1 b2 b3 b4 b5 b6])
qed

theorem run_multiple_policies_witness:
  "run spec_patterns example_web spec_cloudflare example_app (store_same_size, []) =
     (Inr (), (store_same_size,
               [Get_lists ''[AdBlock-x]'', Get_firewall_policies ''[AdBlock-x]''])) \<and>
   run spec_patterns example_web spec_cloudflare example_app (store_other_size, []) =
     (Inl (Exception ''More than one firewall policy found''),
      (store_rebuilt,
       [Get_lists ''[AdBlock-x]'', Delete_gateway_policy ''[AdBlock-x] Block Ads'',
        Delete_list ''[AdBlock-x] 1'' ''l1'', Create_list ''[AdBlock-x] 1'' [''a.io''],
        Get_firewall_policies ''[AdBlock-x]'']))"
proof -
  have g2: "0 < length (computed_domains spec_patterns example_app [''a.io''])"
    and g3: "length (computed_domains spec_patterns example_app [''a.io'']) \<le> 300000"
    by (simp_all add: computed_domains_example)
  have two: "1 < length two_policies"
    by (simp add: two_policies_def)
  have a1: "int (length (computed_domains spec_patterns example_app [''a.io''])) =
      sum_list (map list_count
        [\<lparr> list_id = ''l1'', list_name = ''[AdBlock-x] 1'', list_count = 1 \<rparr>])"
    by (simp add: computed_domains_example)
  have b1: "int (length (computed_domains spec_patterns example_app [''a.io''])) \<noteq>
      sum_list (map list_count
        [\<lparr> list_id = ''l1'', list_name = ''[AdBlock-x] 1'', list_count = 5 \<rparr>])"
    by (simp add: computed_domains_example)
  have b4: "create_lists spec_cloudflare example_app
      (computed_domains spec_patterns example_app [''a.io''])
      (store_other_size \<lparr> lists := [] \<rparr>,
       [] @ [Get_lists (name_prefix example_app),
             Delete_gateway_policy (name_prefix example_app @ '' Block Ads'')] @
       [Delete_list ''[AdBlock-x] 1'' ''l1'']) =
      (Inr [\<lparr> list_id = ''l3'', list_name = ''[AdBlock-x] 1'', list_count = 1 \<rparr>],
       (store_rebuilt,
        ([] @ [Get_lists (name_prefix example_app),
               Delete_gateway_policy (name_prefix example_app @ '' Block Ads'')] @
         [Delete_list ''[AdBlock-x] 1'' ''l1'']) @
        [Create_list ''[AdBlock-x] 1'' [''a.io'']]))"
    unfolding computed_domains_example by (rule other_size_create_lists)
  have b3: "delete_lists spec_cloudflare
      [\<lparr> list_id = ''l1'', list_name = ''[AdBlock-x] 1'', list_count = 5 \<rparr>]
      (store_other_size,
       [] @ [Get_lists (name_prefix example_app),
             Delete_gateway_policy (name_prefix example_app @ '' Block Ads'')]) =
      (Inr [()],
       (store_other_size \<lparr> lists := [] \<rparr>,
        [] @ [Get_lists (name_prefix example_app),
              Delete_gateway_policy (name_prefix example_app @ '' Block Ads'')] @
        [Delete_list ''[AdBlock-x] 1'' ''l1'']))"
    using other_size_delete_lists
      [of "[] @ [Get_lists (name_prefix example_app),
             Delete_gateway_policy (name_prefix example_app @ '' Block Ads'')]"]
    by simp
  have b5: "get_firewall_policies spec_cloudflare (name_prefix example_app)
      (fst (store_rebuilt,
        ([] @ [Get_lists (name_prefix example_app),
               Delete_gateway_policy (name_prefix example_app @ '' Block Ads'')] @
         [Delete_list ''[AdBlock-x] 1'' ''l1'']) @
        [Create_list ''[AdBlock-x] 1'' [''a.io'']])) =
      (Inr two_policies, store_rebuilt)"
    by (simp add: rebuilt_get_policies)
  note thm_same = run_multiple_policies [OF example_downloads g2 g3 same_size_get_lists,
      of two_policies store_same_size "[]"]
  note thm_other = run_multiple_policies [OF example_downloads g2 g3 other_size_get_lists,
      of _ _ "[]" 0 store_other_size "[()]" _ _ _ two_policies store_rebuilt]
  have "run spec_patterns example_web spec_cloudflare example_app (store_same_size, []) =
     (Inr (), (store_same_size,
               [Get_lists ''[AdBlock-x]'', Get_firewall_policies ''[AdBlock-x]'']))"
    using thm_same a1 same_size_get_policies two
    by (simp add: example_name_prefix)
  moreover
  have "run spec_patterns example_web spec_cloudflare example_app (store_other_size, []) =
     (Inl (Exception ''More than one firewall policy found''),
      (store_rebuilt,
       [Get_lists ''[AdBlock-x]'', Delete_gateway_policy ''[AdBlock-x] Block Ads'',
        Delete_list ''[AdBlock-x] 1'' ''l1'', Create_list ''[AdBlock-x] 1'' [''a.io''],
        Get_firewall_policies ''[AdBlock-x]'']))"
    using thm_other [THEN conjunct2, rule_format, OF conjI [OF b1 conjI [OF
        other_size_delete_policy conjI [OF b3 conjI [OF b4 conjI [OF b5 two]]]]]]
    by (simp add: example_name_prefix)
  ultimately show ?thesis
    by simp
qed

theorem run_multiple_policies_counterexample:
  "get_firewall_policies spec_cloudflare (name_prefix example_app) store_same_size =
     (Inr two_policies, store_same_size) \<and>
   length two_policies = 2 \<and>
   fst (run spec_patterns example_web spec_cloudflare example_app (store_same_size, [])) =
     Inr () \<and>
   get_firewall_policies spec_cloudflare (name_prefix example_app) store_other_size =
     (Inr two_policies, store_other_size) \<and>
   fst (run spec_patterns example_web spec_cloudflare example_app (store_other_size, [])) =
     Inl (Exception ''More than one firewall policy found'') \<and>
   filter is_mutation
     (snd (snd (run spec_patterns example_web spec_cloudflare example_app
                  (store_other_size, [])))) =
     [Delete_gateway_policy ''[AdBlock-x] Block Ads'', Delete_list ''[AdBlock-x] 1'' ''l1'',
      Create_list ''[AdBlock-x] 1'' [''a.io'']]"
  by (simp add: example_run_same_size example_run_other_size same_size_get_policies
      other_size_get_policies two_policies_def)

end
